theory Spec2Isabelle
  imports Complex_Main
begin

section \<open>Numbers and constants of extension.js\<close>

text \<open>
  The extension computes with JavaScript numbers. Integer-valued quantities (a battery
  percentage after \<^verbatim>\<open>Math.round\<close>, a GSettings integer) are modelled as \<open>int\<close>.
  Every other number is modelled in two ways. In the geometry of the repaint handler and
  in \<open>calculateColor\<close> a number is a \<open>real\<close>: \<^verbatim>\<open>/\<close> is exact division and \<^verbatim>\<open>Math.PI\<close> is
  \<open>pi\<close>, so these definitions give the exact values of the expressions the code evaluates.
  In \<open>calculateColor64\<close> every division and subtraction is followed by the rounding to
  binary64 that the engine applies (section \<open>binary64 arithmetic\<close>), so that definition
  gives the values the code returns. NaN and the infinities are outside both models.
\<close>

definition CHARGING_KEY :: string where
  "CHARGING_KEY = ''charging-threshold''"

definition DISCHARGING_KEY :: string where
  "DISCHARGING_KEY = ''discharging-threshold''"

definition RING_OUTER_PADDING :: real where
  "RING_OUTER_PADDING = 2"

definition RING_INNER_RATIO :: real where
  "RING_INNER_RATIO = 9 / 10"

definition ARC_START_ANGLE :: real where
  "ARC_START_ANGLE = - pi / 2"

definition DEGREES_PER_PERCENT :: real where
  "DEGREES_PER_PERCENT = 36 / 10"

definition FONT_SIZE_RATIO :: real where
  "FONT_SIZE_RATIO = 33 / 100"

definition CHARGING_ICON_SCALE :: real where
  "CHARGING_ICON_SCALE = 17 / 10"

definition CHARGING_ICON_SPACING :: real where
  "CHARGING_ICON_SPACING = 105 / 100"

definition LOW_BATTERY_THRESHOLD :: int where
  "LOW_BATTERY_THRESHOLD = 50"

definition MIN_BATTERY_PERCENT :: int where
  "MIN_BATTERY_PERCENT = 0"

definition MAX_BATTERY_PERCENT :: int where
  "MAX_BATTERY_PERCENT = 100"

text \<open>\<^verbatim>\<open>Math.round\<close> rounds to the nearest integer, a tie towards plus infinity.\<close>

definition Math_round :: "real \<Rightarrow> int" where
  "Math_round x = \<lfloor>x + 1 / 2\<rfloor>"

section \<open>binary64 arithmetic\<close>

text \<open>
  A finite binary64 number is a rational: an integer of at most 53 bits times a power of
  two, the exponent of the power at least \<open>-1074\<close>. An arithmetic operation of the engine
  returns the binary64 number nearest to the exact result, a tie going to the even
  significand (\<open>roundTiesToEven\<close>). \<open>binade x\<close> is the exponent \<open>e\<close> with
  \<open>2 powi e \<le> \<bar>x\<bar> < 2 powi (e + 1)\<close>, found from the bit lengths of numerator and
  denominator (lemma \<open>binade_bounds\<close>); the significand is then counted in units of
  \<open>2 powi (e - 52)\<close>, and in units of \<open>2 powi (- 1074)\<close> in the subnormal range. Overflow
  to infinity (a result of magnitude \<open>2 powi 1024\<close> or more) is not modelled; the colour
  channels lie between 0 and 1.
\<close>

fun bitLength :: "nat \<Rightarrow> nat" where
  "bitLength n = (if n = 0 then 0 else Suc (bitLength (n div 2)))"

declare bitLength.simps [simp del]

definition roundTiesToEven :: "rat \<Rightarrow> int" where
  "roundTiesToEven m =
     (let f = \<lfloor>m\<rfloor>; r = m - of_int f
      in if r < 1 / 2 then f else if 1 / 2 < r then f + 1
         else if even f then f else f + 1)"

definition binade :: "rat \<Rightarrow> int" where
  "binade x =
     (let (a, b) = quotient_of \<bar>x\<bar>;
          k = int (bitLength (nat a)) - int (bitLength (nat b))
      in if 2 powi k \<le> \<bar>x\<bar> then k else k - 1)"

definition binary64 :: "rat \<Rightarrow> rat" where
  "binary64 x =
     (if x = 0 then 0
      else (let q = 2 powi (max (binade x - 52) (- 1074))
            in of_int (roundTiesToEven (x / q)) * q))"

section \<open>CircleIndicator: status and colour\<close>

record BatteryStatus =
  percentage :: int
  isCharging :: bool

type_synonym rgb = "real \<times> real \<times> real"

definition red_of :: "rgb \<Rightarrow> real" where
  "red_of c = fst c"

definition green_of :: "rgb \<Rightarrow> real" where
  "green_of c = fst (snd c)"

definition blue_of :: "rgb \<Rightarrow> real" where
  "blue_of c = snd (snd c)"

text \<open>
  \<^verbatim>\<open>_calculateColor()\<close> reads \<^verbatim>\<open>this._status\<close> only; the status is its argument here.
  The array \<^verbatim>\<open>[red, green, blue]\<close> it returns is a triple.
\<close>

definition calculateColor :: "BatteryStatus \<Rightarrow> rgb" where
  "calculateColor st =
     (let p = percentage st in
      if p < MIN_BATTERY_PERCENT \<or> p > MAX_BATTERY_PERCENT then (0, 0, 0)
      else if p \<le> LOW_BATTERY_THRESHOLD
        then (1, real_of_int p / real_of_int LOW_BATTERY_THRESHOLD, 0)
        else (1 - (real_of_int p - real_of_int LOW_BATTERY_THRESHOLD)
                    / real_of_int LOW_BATTERY_THRESHOLD, 1, 0))"

text \<open>
  The same function with the binary64 rounding of each operation written out. The
  percentage, 50 and their difference are integers below \<open>2 ^ 53\<close> and so binary64 numbers
  as they are; the quotient by 50 and the subtraction from 1 are rounded.
\<close>

definition calculateColor64 :: "BatteryStatus \<Rightarrow> rgb" where
  "calculateColor64 st =
     (let p = percentage st in
      if p < MIN_BATTERY_PERCENT \<or> p > MAX_BATTERY_PERCENT then (0, 0, 0)
      else if p \<le> LOW_BATTERY_THRESHOLD
        then (1, of_rat (binary64 (of_int p / of_int LOW_BATTERY_THRESHOLD)), 0)
        else (of_rat (binary64 (1 - binary64 (of_int (p - LOW_BATTERY_THRESHOLD)
                                    / of_int LOW_BATTERY_THRESHOLD))), 1, 0))"

text \<open>
  A \<^verbatim>\<open>CircleIndicator\<close> holds the last status, the colour computed from it and the
  actor's \<^verbatim>\<open>visible\<close> flag; \<open>repaints\<close> counts the calls of \<^verbatim>\<open>queue_repaint()\<close>.
\<close>

record CircleIndicator =
  status :: BatteryStatus
  extensionPath :: string
  color :: rgb
  visible :: bool
  repaints :: nat

text \<open>
  \<^verbatim>\<open>_init(status, extensionPath)\<close>: the colour is computed from the status given, and
  the widget starts visible.
\<close>

definition init :: "BatteryStatus \<Rightarrow> string \<Rightarrow> CircleIndicator" where
  "init st path =
     \<lparr>status = st, extensionPath = path, color = calculateColor st, visible = True,
      repaints = 0\<rparr>"

definition update :: "BatteryStatus \<Rightarrow> CircleIndicator \<Rightarrow> CircleIndicator" where
  "update st ind =
     (let ind1 = ind\<lparr>status := st\<rparr>;
          ind2 = ind1\<lparr>color := calculateColor (status ind1)\<rparr>
      in ind2\<lparr>repaints := Suc (repaints ind2)\<rparr>)"

text \<open>The actor methods \<^verbatim>\<open>show()\<close> and \<^verbatim>\<open>hide()\<close> of the widget.\<close>

definition actor_show :: "CircleIndicator \<Rightarrow> CircleIndicator" where
  "actor_show ind = ind\<lparr>visible := True\<rparr>"

definition actor_hide :: "CircleIndicator \<Rightarrow> CircleIndicator" where
  "actor_hide ind = ind\<lparr>visible := False\<rparr>"

section \<open>CircleIndicator: the repaint handler\<close>

text \<open>
  The handler draws on a Cairo context and may write to the console. Both effects are
  returned: the Cairo calls in the order they are made, and the console entries. The
  host supplies the size of the surface, the extents of a text at a font size, and the
  outcome of \<^verbatim>\<open>Rsvg.Handle.new_from_file\<close> on a path: it throws (\<open>LoadThrows\<close>: the file
  is missing or is not an SVG), returns no handle (\<open>NullHandle\<close>), or returns a handle
  with the dimensions of the image.
\<close>

datatype js_error = GLibError | Error string

datatype svg_load = LoadThrows | NullHandle | Handle int int

record ImageSurface =
  surfaceWidth :: int
  surfaceHeight :: int
  tint :: rgb

record TextExtents =
  te_width :: real
  te_height :: real

record host =
  new_from_file :: "string \<Rightarrow> svg_load"
  get_surface_size :: "real \<times> real"
  textExtents :: "int \<Rightarrow> string \<Rightarrow> TextExtents"

datatype log_entry = ConsoleError string js_error

datatype operator = CLEAR | OVER

datatype cairo_op =
    SetSourceRGBA real real real real
  | SetOperator operator
  | Paint
  | SetSourceRGB real real real
  | Arc real real real real real
  | ArcNegative real real real real real
  | ClosePath
  | Fill
  | SelectFontFace string
  | SetFontSize int
  | Save
  | Scale real real
  | SetSourceSurface ImageSurface real real
  | Restore
  | MoveTo real real
  | ShowText string
  | Stroke

text \<open>\<^verbatim>\<open>String(n)\<close> for an integer \<open>n\<close>: its decimal digits, after a minus sign if negative.\<close>

fun digits10 :: "nat \<Rightarrow> string" where
  "digits10 n =
     (if n < 10 then [char_of (48 + n)]
      else digits10 (n div 10) @ [char_of (48 + n mod 10)])"

definition String_of_int :: "int \<Rightarrow> string" where
  "String_of_int i = (if i < 0 then CHR ''-'' # digits10 (nat (- i)) else digits10 (nat i))"

text \<open>
  The body of the \<^verbatim>\<open>try\<close> block of \<^verbatim>\<open>_loadChargingSvg\<close>: an error raised in it is the
  value \<open>Inl\<close>. The surface it returns on success is the image tinted with the colour.
\<close>

definition loadChargingSvg_try ::
  "host \<Rightarrow> CircleIndicator \<Rightarrow> real \<Rightarrow> real \<Rightarrow> real \<Rightarrow> js_error + ImageSurface" where
  "loadChargingSvg_try h ind red green blue =
     (let svgPath = extensionPath ind @ ''/charging.svg'' in
      case new_from_file h svgPath of
        LoadThrows \<Rightarrow> Inl GLibError
      | NullHandle \<Rightarrow> Inl (Error (''Failed to load SVG from '' @ svgPath))
      | Handle svgWidth svgHeight \<Rightarrow>
          Inr \<lparr>surfaceWidth = svgWidth, surfaceHeight = svgHeight,
               tint = (red, green, blue)\<rparr>)"

text \<open>
  \<^verbatim>\<open>_loadChargingSvg\<close>: the \<^verbatim>\<open>catch\<close> clause writes one console entry and returns
  \<^verbatim>\<open>null\<close>; nothing is thrown to the caller.
\<close>

definition loadChargingSvg ::
  "host \<Rightarrow> CircleIndicator \<Rightarrow> real \<Rightarrow> real \<Rightarrow> real \<Rightarrow> ImageSurface option \<times> log_entry list" where
  "loadChargingSvg h ind red green blue =
     (case loadChargingSvg_try h ind red green blue of
        Inr tintSurface \<Rightarrow> (Some tintSurface, [])
      | Inl e \<Rightarrow> (None, [ConsoleError ''[BatteryIcon] Failed to load charging icon'' e]))"

text \<open>
  \<^verbatim>\<open>_drawChargingIcon\<close> returns the x position of the text, with the Cairo calls it made
  and the console entries of the load.
\<close>

definition drawChargingIcon ::
  "host \<Rightarrow> CircleIndicator \<Rightarrow> real \<Rightarrow> real \<Rightarrow> TextExtents \<Rightarrow> real \<Rightarrow> real \<Rightarrow> real
     \<Rightarrow> real \<times> cairo_op list \<times> log_entry list" where
  "drawChargingIcon h ind centerX centerY te red green blue =
     (case loadChargingSvg h ind red green blue of
        (None, lg) \<Rightarrow> (centerX - te_width te / 2, [], lg)
      | (Some svgSurface, lg) \<Rightarrow>
          (let svgHeight = real_of_int (surfaceHeight svgSurface);
               svgWidth = real_of_int (surfaceWidth svgSurface);
               scale = (te_height te * CHARGING_ICON_SCALE) / svgHeight;
               scaledWidth = svgWidth * scale;
               scaledHeight = svgHeight * scale;
               iconX = centerX - CHARGING_ICON_SPACING * (te_width te + scaledWidth) / 2;
               iconY = centerY - scaledHeight / 2;
               textX = iconX + scaledWidth - 5
           in (textX,
               [Save, Scale scale scale,
                SetSourceSurface svgSurface (iconX / scale) (iconY / scale), Paint, Restore],
               lg)))"

text \<open>The end angle of the filled arc, as \<^verbatim>\<open>_onRepaint\<close> computes it from the percentage.\<close>

definition arcEndAngle :: "int \<Rightarrow> real" where
  "arcEndAngle p =
     (270 - real_of_int (MAX_BATTERY_PERCENT - p) * DEGREES_PER_PERCENT) * pi / 180"

definition onRepaint :: "host \<Rightarrow> CircleIndicator \<Rightarrow> cairo_op list \<times> log_entry list" where
  "onRepaint h ind =
     (let (width, height) = get_surface_size h;
          clear = [SetSourceRGBA 0 0 0 0, SetOperator CLEAR, Paint, SetOperator OVER];
          (red, green, blue) = color ind;
          centerX = width / 2;
          centerY = height / 2;
          outerRadius = min width height / 2 - RING_OUTER_PADDING;
          innerRadius = outerRadius * RING_INNER_RATIO;
          endAngle = arcEndAngle (percentage (status ind));
          ring = [SetSourceRGB red green blue,
                  Arc centerX centerY outerRadius ARC_START_ANGLE endAngle,
                  ArcNegative centerX centerY innerRadius endAngle ARC_START_ANGLE,
                  ClosePath, Fill];
          fontSize = Math_round (height * FONT_SIZE_RATIO);
          label = String_of_int (percentage (status ind));
          te = textExtents h fontSize label;
          textY = centerY + te_height te / 2;
          (textX, icon, lg) =
            (if isCharging (status ind)
             then drawChargingIcon h ind centerX centerY te red green blue
             else (centerX - te_width te / 2, [], []))
      in (clear @ ring @ [SelectFontFace ''Sans'', SetFontSize fontSize] @ icon
            @ [SetSourceRGB red green blue, MoveTo textX textY, ShowText label, Stroke],
          lg))"

text \<open>The position of the label: the arguments of the \<^verbatim>\<open>moveTo\<close> calls of a repaint.\<close>

fun labelPositions :: "cairo_op list \<Rightarrow> (real \<times> real) list" where
  "labelPositions [] = []"
| "labelPositions (MoveTo x y # ops) = (x, y) # labelPositions ops"
| "labelPositions (_ # ops) = labelPositions ops"

text \<open>
  The calls of a repaint that build and fill a path: \<^verbatim>\<open>arc\<close>, \<^verbatim>\<open>arcNegative\<close>,
  \<^verbatim>\<open>closePath\<close> and \<^verbatim>\<open>fill\<close>, in the order they are made.
\<close>

fun pathOps :: "cairo_op list \<Rightarrow> cairo_op list" where
  "pathOps [] = []"
| "pathOps (Arc cx cy r a1 a2 # ops) = Arc cx cy r a1 a2 # pathOps ops"
| "pathOps (ArcNegative cx cy r a1 a2 # ops) = ArcNegative cx cy r a1 a2 # pathOps ops"
| "pathOps (ClosePath # ops) = ClosePath # pathOps ops"
| "pathOps (Fill # ops) = Fill # pathOps ops"
| "pathOps (_ # ops) = pathOps ops"

section \<open>BatteryIconExtension: thresholds and visibility\<close>

text \<open>
  The state of an enabled extension, as far as \<^verbatim>\<open>_updateIndicator\<close> reads and writes
  it: the integers stored in the settings (\<^verbatim>\<open>get_int\<close>), the UPower display device and
  the indicator (\<^verbatim>\<open>null\<close> is \<open>None\<close>). The stock battery icon and the place of the
  indicator in the panel, which \<^verbatim>\<open>_updateIndicator\<close> also maintains, do not enter the
  status, the colour or the visibility of the indicator and are left out.
\<close>

datatype DeviceState =
    UNKNOWN | CHARGING | DISCHARGING | EMPTY | FULLY_CHARGED | PENDING_CHARGE
  | PENDING_DISCHARGE

record UPowerDevice =
  dev_percentage :: "real option"
  dev_state :: DeviceState

record Extension =
  settings :: "string \<Rightarrow> int"
  device :: UPowerDevice
  indicator :: "CircleIndicator option"

definition getValidatedThreshold :: "Extension \<Rightarrow> string \<Rightarrow> int" where
  "getValidatedThreshold ext key =
     (let v = settings ext key
      in max MIN_BATTERY_PERCENT (min MAX_BATTERY_PERCENT v))"

text \<open>
  The status \<^verbatim>\<open>_updateIndicator\<close> reads from the device in its first two statements:
  \<^verbatim>\<open>Math.round(this._device.percentage ?? -1)\<close> and the comparison of the state with
  \<^verbatim>\<open>CHARGING\<close>.
\<close>

definition deviceStatus :: "Extension \<Rightarrow> BatteryStatus" where
  "deviceStatus ext =
     \<lparr>percentage =
        Math_round (case dev_percentage (device ext) of Some v \<Rightarrow> v | None \<Rightarrow> - 1),
      isCharging = (dev_state (device ext) = CHARGING)\<rparr>"

definition updateIndicator :: "Extension \<Rightarrow> Extension" where
  "updateIndicator ext =
     (let st = deviceStatus ext in
      if percentage st < MIN_BATTERY_PERCENT
      then ext\<lparr>indicator := map_option actor_hide (indicator ext)\<rparr>
      else
        (let ext1 = ext\<lparr>indicator := map_option (update st) (indicator ext)\<rparr>;
             chargingThreshold = getValidatedThreshold ext1 CHARGING_KEY;
             dischargingThreshold = getValidatedThreshold ext1 DISCHARGING_KEY;
             shouldShow =
               (if isCharging st
                then percentage st < chargingThreshold \<or> percentage st < dischargingThreshold
                else percentage st < dischargingThreshold)
         in if shouldShow
            then ext1\<lparr>indicator := map_option actor_show (indicator ext1)\<rparr>
            else ext1\<lparr>indicator := map_option actor_hide (indicator ext1)\<rparr>))"

text \<open>The indicator is shown when it exists and its \<^verbatim>\<open>visible\<close> flag is set.\<close>

definition indicatorShown :: "Extension \<Rightarrow> bool" where
  "indicatorShown ext = (case indicator ext of None \<Rightarrow> False | Some ind \<Rightarrow> visible ind)"

text \<open>
  The state \<^verbatim>\<open>enable()\<close> has built when \<^verbatim>\<open>_createIndicator\<close> returns: the settings, the
  display device, and an indicator created with the status
  \<^verbatim>\<open>{percentage: -1, isCharging: false}\<close>.
\<close>

definition createIndicator :: "(string \<Rightarrow> int) \<Rightarrow> UPowerDevice \<Rightarrow> string \<Rightarrow> Extension" where
  "createIndicator s d path =
     \<lparr>settings = s, device = d,
      indicator = Some (init \<lparr>percentage = - 1, isCharging = False\<rparr> path)\<rparr>"

text \<open>
  A settings store that holds \<open>c\<close> under the charging key and \<open>d\<close> under the discharging
  key, for the examples below.
\<close>

definition storedThresholds :: "int \<Rightarrow> int \<Rightarrow> string \<Rightarrow> int" where
  "storedThresholds c d key =
     (if key = CHARGING_KEY then c else if key = DISCHARGING_KEY then d else 0)"

text \<open>An angle given in degrees, in radians: the conversion \<^verbatim>\<open>* Math.PI / 180\<close>.\<close>

definition degrees :: "real \<Rightarrow> real" where
  "degrees d = d * pi / 180"

section \<open>Properties of the colour\<close>

lemma calculateColor_low:
  "0 \<le> percentage st \<Longrightarrow> percentage st \<le> 50 \<Longrightarrow>
     calculateColor st = (1, real_of_int (percentage st) / 50, 0)"
  by (simp add: calculateColor_def MIN_BATTERY_PERCENT_def MAX_BATTERY_PERCENT_def
      LOW_BATTERY_THRESHOLD_def)

lemma calculateColor_high:
  "50 < percentage st \<Longrightarrow> percentage st \<le> 100 \<Longrightarrow>
     calculateColor st = (1 - (real_of_int (percentage st) - 50) / 50, 1, 0)"
  by (simp add: calculateColor_def MIN_BATTERY_PERCENT_def MAX_BATTERY_PERCENT_def
      LOW_BATTERY_THRESHOLD_def)

lemma calculateColor_invalid:
  "percentage st < 0 \<or> 100 < percentage st \<Longrightarrow> calculateColor st = (0, 0, 0)"
  by (auto simp add: calculateColor_def MIN_BATTERY_PERCENT_def MAX_BATTERY_PERCENT_def)

lemma red_of_calculateColor:
  "0 \<le> percentage st \<Longrightarrow> percentage st \<le> 100 \<Longrightarrow>
     red_of (calculateColor st) =
       (if percentage st \<le> 50 then 1 else 1 - (real_of_int (percentage st) - 50) / 50)"
  by (simp add: calculateColor_low calculateColor_high red_of_def)

lemma green_of_calculateColor:
  "0 \<le> percentage st \<Longrightarrow> percentage st \<le> 100 \<Longrightarrow>
     green_of (calculateColor st) =
       (if percentage st \<le> 50 then real_of_int (percentage st) / 50 else 1)"
  by (simp add: calculateColor_low calculateColor_high green_of_def)

lemma blue_of_calculateColor: "blue_of (calculateColor st) = 0"
  by (simp add: calculateColor_def blue_of_def Let_def)

text \<open>
  Claim C3. For an integer percentage \<open>p\<close> with \<open>0 \<le> p \<le> 100\<close> the colour is
  \<open>(1, p/50, 0)\<close> when \<open>p \<le> 50\<close> and \<open>(1 - (p - 50)/50, 1, 0)\<close> when \<open>p > 50\<close>; the
  colour at 0 is pure red, at 50 pure yellow and at 100 pure green.
\<close>

theorem C3_color_formula:
  assumes "0 \<le> percentage st" and "percentage st \<le> 100"
  shows "(percentage st \<le> 50 \<longrightarrow>
            calculateColor st = (1, real_of_int (percentage st) / 50, 0))
       \<and> (50 < percentage st \<longrightarrow>
            calculateColor st = (1 - (real_of_int (percentage st) - 50) / 50, 1, 0))
       \<and> calculateColor \<lparr>percentage = 0, isCharging = c\<rparr> = (1, 0, 0)
       \<and> calculateColor \<lparr>percentage = 50, isCharging = c\<rparr> = (1, 1, 0)
       \<and> calculateColor \<lparr>percentage = 100, isCharging = c\<rparr> = (0, 1, 0)"
proof -
  have "calculateColor \<lparr>percentage = 0, isCharging = c\<rparr> = (1, 0, 0)"
    by (simp add: calculateColor_low)
  moreover have "calculateColor \<lparr>percentage = 50, isCharging = c\<rparr> = (1, 1, 0)"
    by (simp add: calculateColor_low)
  moreover have "calculateColor \<lparr>percentage = 100, isCharging = c\<rparr> = (0, 1, 0)"
    by (simp add: calculateColor_high)
  ultimately show ?thesis
    using assms by (simp add: calculateColor_low calculateColor_high)
qed

theorem C3_color_formula_witness:
  "(0::int) \<le> 25 \<and> (25::int) \<le> 100
     \<and> calculateColor \<lparr>percentage = 25, isCharging = False\<rparr> = (1, 1 / 2, 0)
     \<and> (0::int) \<le> 80 \<and> (80::int) \<le> 100
     \<and> calculateColor \<lparr>percentage = 80, isCharging = True\<rparr> = (2 / 5, 1, 0)"
  using C3_color_formula [of "\<lparr>percentage = 25, isCharging = False\<rparr>" False]
    C3_color_formula [of "\<lparr>percentage = 80, isCharging = True\<rparr>" False]
  by simp

text \<open>
  Claim C5. For a percentage outside \<open>[0, 100]\<close>, in particular \<open>-1\<close> and \<open>101\<close>, the
  colour computation returns black, \<open>(0, 0, 0)\<close>.
\<close>

theorem C5_color_out_of_range:
  assumes "percentage st < 0 \<or> 100 < percentage st"
  shows "calculateColor st = (0, 0, 0)"
  using assms by (rule calculateColor_invalid)

theorem C5_color_out_of_range_witness:
  "calculateColor \<lparr>percentage = - 1, isCharging = False\<rparr> = (0, 0, 0)
     \<and> calculateColor \<lparr>percentage = 101, isCharging = True\<rparr> = (0, 0, 0)"
  using C5_color_out_of_range [of "\<lparr>percentage = - 1, isCharging = False\<rparr>"]
    C5_color_out_of_range [of "\<lparr>percentage = 101, isCharging = True\<rparr>"]
  by simp

text \<open>
  Adjacent percentages in exact arithmetic: each channel of \<open>calculateColor\<close> changes by
  at most \<open>1/50\<close>, and the bound is attained: up to 50 the green channel, and from 50 on
  the red channel, changes by exactly \<open>1/50\<close> per percent.
\<close>

lemma calculateColor_adjacent_step:
  assumes "0 \<le> percentage st" and "percentage st' = percentage st + 1"
    and "percentage st' \<le> 100"
  shows "\<bar>red_of (calculateColor st') - red_of (calculateColor st)\<bar> \<le> 1 / 50
       \<and> \<bar>green_of (calculateColor st') - green_of (calculateColor st)\<bar> \<le> 1 / 50
       \<and> \<bar>blue_of (calculateColor st') - blue_of (calculateColor st)\<bar> \<le> 1 / 50"
proof -
  have r: "0 \<le> percentage st'" "percentage st \<le> 100"
    using assms by simp_all
  have "\<bar>red_of (calculateColor st') - red_of (calculateColor st)\<bar> \<le> 1 / 50"
    using assms by (auto simp add: red_of_calculateColor r diff_divide_distrib)
  moreover have "\<bar>green_of (calculateColor st') - green_of (calculateColor st)\<bar> \<le> 1 / 50"
    using assms by (auto simp add: green_of_calculateColor r diff_divide_distrib add_divide_distrib)
  moreover have "\<bar>blue_of (calculateColor st') - blue_of (calculateColor st)\<bar> \<le> 1 / 50"
    by (simp add: blue_of_calculateColor)
  ultimately show ?thesis by simp
qed

lemma color_step_exact:
  assumes "0 \<le> percentage st" and "percentage st' = percentage st + 1"
    and "percentage st' \<le> 100"
  shows "percentage st < 50 \<Longrightarrow>
           green_of (calculateColor st') - green_of (calculateColor st) = 1 / 50"
    and "50 \<le> percentage st \<Longrightarrow>
           red_of (calculateColor st) - red_of (calculateColor st') = 1 / 50"
proof -
  have r: "0 \<le> percentage st'" "percentage st \<le> 100"
    using assms by simp_all
  show "percentage st < 50 \<Longrightarrow>
           green_of (calculateColor st') - green_of (calculateColor st) = 1 / 50"
    using assms by (simp add: green_of_calculateColor r add_divide_distrib)
  show "50 \<le> percentage st \<Longrightarrow>
           red_of (calculateColor st) - red_of (calculateColor st') = 1 / 50"
    using assms by (auto simp add: red_of_calculateColor r diff_divide_distrib)
qed

subsection \<open>The colour in binary64 arithmetic\<close>

lemma roundTiesToEven_cases:
  "roundTiesToEven m = \<lfloor>m\<rfloor> \<and> m - of_int \<lfloor>m\<rfloor> \<le> 1 / 2
   \<or> roundTiesToEven m = \<lfloor>m\<rfloor> + 1 \<and> 1 / 2 \<le> m - of_int \<lfloor>m\<rfloor>"
  by (auto simp add: roundTiesToEven_def Let_def)

lemma roundTiesToEven_error: "\<bar>of_int (roundTiesToEven m) - m\<bar> \<le> 1 / 2"
proof -
  have "of_int \<lfloor>m\<rfloor> \<le> m" and "m < of_int \<lfloor>m\<rfloor> + 1"
    by linarith+
  with roundTiesToEven_cases [of m] show ?thesis
    by (auto simp add: abs_le_iff)
qed

lemma roundTiesToEven_le:
  assumes "m \<le> of_int n"
  shows "roundTiesToEven m \<le> n"
proof -
  have f: "\<lfloor>m\<rfloor> \<le> n"
    using floor_mono [OF assms] by simp
  show ?thesis
  proof (cases "m = of_int \<lfloor>m\<rfloor>")
    case True
    then have "roundTiesToEven m = \<lfloor>m\<rfloor>"
      using roundTiesToEven_cases [of m] by auto
    with f show ?thesis by simp
  next
    case False
    then have "of_int \<lfloor>m\<rfloor> < m"
      using of_int_floor_le [of m] by linarith
    with assms have "of_int \<lfloor>m\<rfloor> < (of_int n :: rat)"
      by linarith
    then have "\<lfloor>m\<rfloor> < n"
      by simp
    with roundTiesToEven_cases [of m] show ?thesis
      by auto
  qed
qed

lemma roundTiesToEven_nonneg: "0 \<le> m \<Longrightarrow> 0 \<le> roundTiesToEven m"
  using roundTiesToEven_cases [of m] by auto

lemma bitLength_pos: "0 < n \<Longrightarrow> 0 < bitLength n"
  by (simp add: bitLength.simps [of n])

lemma bitLength_bounds:
  "0 < n \<Longrightarrow> 2 ^ (bitLength n - 1) \<le> n \<and> n < 2 ^ bitLength n"
proof (induction n rule: bitLength.induct)
  case (1 n)
  show ?case
  proof (cases "n div 2 = 0")
    case True
    with 1 have "n = 1"
      by (simp add: div_eq_0_iff)
    then show ?thesis
      by (simp add: bitLength.simps [of "Suc 0"] bitLength.simps [of 0])
  next
    case False
    let ?L = "bitLength (n div 2)"
    from False 1 have ih: "2 ^ (?L - 1) \<le> n div 2" "n div 2 < 2 ^ ?L"
      by auto
    from False have L: "0 < ?L"
      by (simp add: bitLength_pos)
    have n: "bitLength n = Suc ?L"
      using 1 by (simp add: bitLength.simps [of n])
    from L have "(2::nat) ^ ?L = 2 * 2 ^ (?L - 1)"
      by (cases ?L) simp_all
    moreover have "2 * (n div 2) \<le> n" and "n < 2 * (n div 2) + 2"
      by presburger+
    ultimately have "2 ^ ?L \<le> n" "n < 2 * 2 ^ ?L"
      using ih by linarith+
    with n show ?thesis
      by simp
  qed
qed


lemma binade_bounds:
  assumes "x \<noteq> 0"
  shows "2 powi binade x \<le> \<bar>x\<bar> \<and> \<bar>x\<bar> < 2 powi (binade x + 1)"
proof -
  obtain a b where q: "quotient_of \<bar>x\<bar> = (a, b)"
    by (cases "quotient_of \<bar>x\<bar>")
  then have b: "0 < b" and x: "\<bar>x\<bar> = of_int a / of_int b"
    by (simp_all add: quotient_of_denom_pos quotient_of_div)
  from assms have "0 < \<bar>x\<bar>"
    by simp
  with x b have a: "0 < a"
    by (simp add: zero_less_divide_iff)
  let ?la = "bitLength (nat a)" and ?lb = "bitLength (nat b)"
  let ?k = "int ?la - int ?lb"
  have la: "0 < ?la" and lb: "0 < ?lb"
    using a b by (simp_all add: bitLength_pos)
  have A: "2 ^ (?la - 1) \<le> (of_int a :: rat)" "(of_int a :: rat) < 2 ^ ?la"
  proof -
    from bitLength_bounds [of "nat a"] a
    have n: "2 ^ (?la - 1) \<le> nat a" "nat a < 2 ^ ?la"
      by simp_all
    have "(of_nat (2 ^ (?la - 1)) :: rat) \<le> of_nat (nat a)"
      using n(1) by (rule of_nat_mono)
    moreover have "(of_nat (nat a) :: rat) < of_nat (2 ^ ?la)"
      using n(2) by (simp only: of_nat_less_iff)
    moreover have "(of_nat (nat a) :: rat) = of_int a"
      using a by simp
    ultimately show "2 ^ (?la - 1) \<le> (of_int a :: rat)" "(of_int a :: rat) < 2 ^ ?la"
      by simp_all
  qed
  have B: "2 ^ (?lb - 1) \<le> (of_int b :: rat)" "(of_int b :: rat) < 2 ^ ?lb"
  proof -
    from bitLength_bounds [of "nat b"] b
    have n: "2 ^ (?lb - 1) \<le> nat b" "nat b < 2 ^ ?lb"
      by simp_all
    have "(of_nat (2 ^ (?lb - 1)) :: rat) \<le> of_nat (nat b)"
      using n(1) by (rule of_nat_mono)
    moreover have "(of_nat (nat b) :: rat) < of_nat (2 ^ ?lb)"
      using n(2) by (simp only: of_nat_less_iff)
    moreover have "(of_nat (nat b) :: rat) = of_int b"
      using b by simp
    ultimately show "2 ^ (?lb - 1) \<le> (of_int b :: rat)" "(of_int b :: rat) < 2 ^ ?lb"
      by simp_all
  qed
  have bpos: "0 < (of_int b :: rat)"
    using b by simp
  have k: "(2::rat) powi ?k = 2 ^ ?la / 2 ^ ?lb"
    by (simp add: power_int_diff)
  have la2: "(2::rat) ^ ?la = 2 * 2 ^ (?la - 1)" and lb2: "(2::rat) ^ ?lb = 2 * 2 ^ (?lb - 1)"
    using la lb by (cases ?la, simp_all) (cases ?lb, simp_all)
  have upper: "\<bar>x\<bar> < 2 powi (?k + 1)"
  proof -
    have "of_int a * 2 ^ ?lb < (2::rat) ^ ?la * (2 * of_int b)"
    proof -
      have "of_int a * 2 ^ ?lb < (2::rat) ^ ?la * 2 ^ ?lb"
        using A(2) by simp
      also have "\<dots> \<le> 2 ^ ?la * (2 * of_int b)"
        using B(1) lb2 by simp
      finally show ?thesis .
    qed
    then have "of_int a / of_int b < (2::rat) ^ ?la / 2 ^ ?lb * 2"
      using bpos by (simp add: field_simps)
    then show ?thesis
      by (simp add: x k power_int_add)
  qed
  have lower: "2 powi (?k - 1) < \<bar>x\<bar>"
  proof -
    have "(2::rat) ^ ?la * of_int b < 2 ^ ?la * 2 ^ ?lb"
      using B(2) by simp
    also have "\<dots> \<le> (2 * of_int a) * 2 ^ ?lb"
      using A(1) la2 by simp
    finally have "(2::rat) ^ ?la / 2 ^ ?lb / 2 < of_int a / of_int b"
      using bpos by (simp add: field_simps)
    then show ?thesis
      by (simp add: x k power_int_diff)
  qed
  have e: "binade x = (if 2 powi ?k \<le> \<bar>x\<bar> then ?k else ?k - 1)"
    by (simp add: binade_def q Let_def)
  show ?thesis
  proof (cases "2 powi ?k \<le> \<bar>x\<bar>")
    case True
    with e upper show ?thesis by simp
  next
    case False
    with e lower show ?thesis by simp
  qed
qed

lemma binade_eqI:
  assumes "2 powi e \<le> \<bar>x\<bar>" and "\<bar>x\<bar> < 2 powi (e + 1)"
  shows "binade x = e"
proof -
  have "0 < \<bar>x\<bar>"
    using assms(1) zero_less_power_int [of "2::rat" e] by linarith
  then have "x \<noteq> 0"
    by simp
  from binade_bounds [OF this]
  have "(2::rat) powi binade x < 2 powi (e + 1)" and "(2::rat) powi e < 2 powi (binade x + 1)"
    using assms by linarith+
  note lt = this
  have "binade x < e + 1"
  proof (rule ccontr)
    assume "\<not> binade x < e + 1"
    then have "e + 1 \<le> binade x"
      by simp
    then have "(2::rat) powi (e + 1) \<le> 2 powi binade x"
      by (rule power_int_increasing) simp
    with lt(1) show False
      by simp
  qed
  moreover have "e < binade x + 1"
  proof (rule ccontr)
    assume "\<not> e < binade x + 1"
    then have "binade x + 1 \<le> e"
      by simp
    then have "(2::rat) powi (binade x + 1) \<le> 2 powi e"
      by (rule power_int_increasing) simp
    with lt(2) show False
      by simp
  qed
  ultimately show ?thesis
    by simp
qed

lemma binary64_eqI:
  assumes "2 powi e \<le> \<bar>x\<bar>" and "\<bar>x\<bar> < 2 powi (e + 1)" and "- 1022 \<le> e"
  shows "binary64 x = of_int (roundTiesToEven (x / 2 powi (e - 52))) * 2 powi (e - 52)"
proof -
  have "0 < \<bar>x\<bar>"
    using assms(1) zero_less_power_int [of "2::rat" e] by linarith
  then have "x \<noteq> 0"
    by simp
  moreover have "binade x = e"
    using assms(1,2) by (rule binade_eqI)
  moreover have "max (e - 52) (- 1074) = e - 52"
    using assms(3) by simp
  ultimately show ?thesis
    by (simp add: binary64_def Let_def)
qed

lemma floor_rat_divide_numeral:
  "\<lfloor>numeral a / numeral b :: rat\<rfloor> = numeral a div numeral b"
  by (metis floor_divide_of_int_eq of_int_numeral)

text \<open>Two values by the rule above: the quotient \<open>1/50\<close> and its difference from 1.\<close>

lemma binary64_one_fiftieth: "binary64 (1 / 50) = 5764607523034235 / 2 ^ 58"
  by (subst binary64_eqI [of "- 6"])
    (simp_all add: roundTiesToEven_def Let_def floor_rat_divide_numeral)

lemma binary64_one_minus_one_fiftieth:
  "binary64 (1 - 5764607523034235 / 2 ^ 58) = 2206763817411543 / 2 ^ 51"
  by (subst binary64_eqI [of "- 1"])
    (simp_all add: roundTiesToEven_def Let_def floor_rat_divide_numeral)

lemma binade_le_0:
  assumes "x \<noteq> 0" and "\<bar>x\<bar> \<le> 1"
  shows "binade x \<le> 0"
proof (rule ccontr)
  assume "\<not> binade x \<le> 0"
  then have "1 \<le> binade x"
    by simp
  then have "(2::rat) powi 1 \<le> 2 powi binade x"
    by (rule power_int_increasing) simp
  with binade_bounds [OF assms(1)] assms(2) show False
    by simp
qed

lemma binade_less_0:
  assumes "x \<noteq> 0" and "\<bar>x\<bar> < 1"
  shows "binade x < 0"
proof (rule ccontr)
  assume "\<not> binade x < 0"
  then have "0 \<le> binade x"
    by simp
  then have "(2::rat) powi 0 \<le> 2 powi binade x"
    by (rule power_int_increasing) simp
  with binade_bounds [OF assms(1)] assms(2) show False
    by simp
qed

lemma binary64_0: "binary64 0 = 0"
  by (simp add: binary64_def)

lemma binary64_1: "binary64 1 = 1"
  by (subst binary64_eqI [of 0]) (simp_all add: roundTiesToEven_def Let_def power_int_minus)

lemma binary64_error_below_1:
  assumes "0 < x" and "x < 1"
  shows "\<bar>binary64 x - x\<bar> \<le> 1 / 2 ^ 54"
proof -
  let ?t = "max (binade x - 52) (- 1074)"
  let ?q = "(2::rat) powi ?t"
  from assms have nz: "x \<noteq> 0" and "\<bar>x\<bar> < 1"
    by simp_all
  then have "binade x < 0"
    by (rule binade_less_0)
  then have "?t \<le> - 53"
    by simp
  then have "?q \<le> 2 powi (- 53)"
    by (rule power_int_increasing) simp
  then have q: "?q \<le> 1 / 2 ^ 53"
    by (simp add: power_int_minus_divide)
  have qpos: "0 < ?q"
    by simp
  have "binary64 x - x = ?q * (of_int (roundTiesToEven (x / ?q)) - x / ?q)"
    using nz qpos by (simp add: binary64_def Let_def field_simps)
  then have "\<bar>binary64 x - x\<bar> = ?q * \<bar>of_int (roundTiesToEven (x / ?q)) - x / ?q\<bar>"
    using qpos by (simp add: abs_mult)
  also have "\<dots> \<le> ?q * (1 / 2)"
    using qpos roundTiesToEven_error [of "x / ?q"] by (simp only: mult_le_cancel_left_pos)
  also have "\<dots> \<le> 1 / 2 ^ 53 * (1 / 2)"
    using q by simp
  finally show ?thesis
    by simp
qed

lemma binary64_error_unit:
  assumes "0 \<le> x" and "x \<le> 1"
  shows "\<bar>binary64 x - x\<bar> \<le> 1 / 2 ^ 54"
proof -
  consider "x = 0" | "x = 1" | "0 < x" "x < 1"
    using assms by linarith
  then show ?thesis
  proof cases
    case 1
    then show ?thesis by (simp add: binary64_0)
  next
    case 2
    then show ?thesis by (simp add: binary64_1)
  next
    case 3
    then show ?thesis by (rule binary64_error_below_1)
  qed
qed

lemma binary64_unit_range:
  assumes "0 \<le> x" and "x \<le> 1"
  shows "0 \<le> binary64 x \<and> binary64 x \<le> 1"
proof (cases "x = 0")
  case True
  then show ?thesis by (simp add: binary64_0)
next
  case False
  let ?t = "max (binade x - 52) (- 1074)"
  let ?q = "(2::rat) powi ?t"
  let ?n = "nat (- ?t)"
  have qpos: "0 < ?q"
    by simp
  from False assms have "binade x \<le> 0"
    by (intro binade_le_0) simp_all
  then have t: "?t \<le> 0"
    by simp
  then have "?q = 1 / 2 ^ ?n"
    by (simp add: power_int_def inverse_eq_divide power_one_over [symmetric] del: power_one_over)
  then have inv: "1 / ?q = of_int (2 ^ ?n)"
    by simp
  have b: "binary64 x = of_int (roundTiesToEven (x / ?q)) * ?q"
    using False by (simp add: binary64_def Let_def)
  have "0 \<le> x / ?q"
    using assms(1) qpos by simp
  then have "0 \<le> roundTiesToEven (x / ?q)"
    by (rule roundTiesToEven_nonneg)
  then have lo: "0 \<le> binary64 x"
    using qpos by (simp add: b)
  have "x / ?q \<le> 1 / ?q"
    using assms(2) qpos by (simp add: divide_right_mono)
  then have "x / ?q \<le> of_int (2 ^ ?n)"
    by (simp only: inv)
  then have "roundTiesToEven (x / ?q) \<le> 2 ^ ?n"
    by (rule roundTiesToEven_le)
  then have "(of_int (roundTiesToEven (x / ?q)) :: rat) \<le> of_int (2 ^ ?n)"
    by (simp only: of_int_le_iff)
  then have "of_int (roundTiesToEven (x / ?q)) * ?q \<le> of_int (2 ^ ?n) * ?q"
    using qpos by (simp only: mult_le_cancel_right_pos)
  also have "of_int (2 ^ ?n) * ?q = 1"
    using inv qpos by (simp add: field_simps)
  finally have "binary64 x \<le> 1"
    by (simp only: b)
  with lo show ?thesis
    by simp
qed


lemma of_rat_abs_diff_le:
  assumes "\<bar>a - b\<bar> \<le> c"
  shows "\<bar>(of_rat a :: real) - of_rat b\<bar> \<le> of_rat c"
proof -
  from assms have "a - b \<le> c" and "- c \<le> a - b"
    by (simp_all add: abs_le_iff)
  then have "(of_rat (a - b) :: real) \<le> of_rat c" and "(of_rat (- c) :: real) \<le> of_rat (a - b)"
    by (simp_all only: of_rat_less_eq)
  then show ?thesis
    by (simp add: of_rat_diff of_rat_minus abs_le_iff)
qed

lemma calculateColor64_low:
  "0 \<le> percentage st \<Longrightarrow> percentage st \<le> 50 \<Longrightarrow>
     calculateColor64 st = (1, of_rat (binary64 (of_int (percentage st) / 50)), 0)"
  by (simp add: calculateColor64_def MIN_BATTERY_PERCENT_def MAX_BATTERY_PERCENT_def
      LOW_BATTERY_THRESHOLD_def)

lemma calculateColor64_high:
  "50 < percentage st \<Longrightarrow> percentage st \<le> 100 \<Longrightarrow>
     calculateColor64 st
       = (of_rat (binary64 (1 - binary64 (of_int (percentage st - 50) / 50))), 1, 0)"
  by (simp add: calculateColor64_def MIN_BATTERY_PERCENT_def MAX_BATTERY_PERCENT_def
      LOW_BATTERY_THRESHOLD_def)

lemma blue_of_calculateColor64: "blue_of (calculateColor64 st) = 0"
  by (simp add: calculateColor64_def blue_of_def Let_def)

lemma green_of_calculateColor64_close:
  assumes "0 \<le> percentage st" and "percentage st \<le> 100"
  shows "\<bar>green_of (calculateColor64 st) - green_of (calculateColor st)\<bar> \<le> 1 / 2 ^ 54"
proof (cases "percentage st \<le> 50")
  case True
  let ?x = "of_int (percentage st) / 50 :: rat"
  have "0 \<le> ?x" and "?x \<le> 1"
    using assms(1) True by simp_all
  then have "\<bar>binary64 ?x - ?x\<bar> \<le> 1 / 2 ^ 54"
    by (rule binary64_error_unit)
  then have "\<bar>(of_rat (binary64 ?x) :: real) - of_rat ?x\<bar> \<le> of_rat (1 / 2 ^ 54)"
    by (rule of_rat_abs_diff_le)
  also have "(of_rat (1 / 2 ^ 54) :: real) = 1 / 2 ^ 54"
    by (simp add: of_rat_divide of_rat_power)
  finally have b: "\<bar>(of_rat (binary64 ?x) :: real) - of_rat ?x\<bar> \<le> 1 / 2 ^ 54" .
  have g64: "green_of (calculateColor64 st) = of_rat (binary64 ?x)"
    using assms(1) True by (simp add: calculateColor64_low green_of_def)
  have g: "green_of (calculateColor st) = of_rat ?x"
    using assms True by (simp add: green_of_calculateColor of_rat_divide)
  show ?thesis
    unfolding g64 g by (rule b)
next
  case False
  then show ?thesis
    using assms by (simp add: calculateColor64_high calculateColor_high green_of_def)
qed

lemma red_of_calculateColor64_close:
  assumes "0 \<le> percentage st" and "percentage st \<le> 100"
  shows "\<bar>red_of (calculateColor64 st) - red_of (calculateColor st)\<bar> \<le> 1 / 2 ^ 53"
proof (cases "percentage st \<le> 50")
  case True
  then show ?thesis
    using assms by (simp add: calculateColor64_low calculateColor_low red_of_def)
next
  case False
  let ?y = "of_int (percentage st - 50) / 50 :: rat"
  let ?z = "1 - binary64 ?y"
  have y: "0 \<le> ?y" "?y \<le> 1"
    using assms(2) False by simp_all
  then have ey: "\<bar>binary64 ?y - ?y\<bar> \<le> 1 / 2 ^ 54"
    by (rule binary64_error_unit)
  from binary64_unit_range [OF y] have z: "0 \<le> ?z" "?z \<le> 1"
    by simp_all
  then have ez: "\<bar>binary64 ?z - ?z\<bar> \<le> 1 / 2 ^ 54"
    by (rule binary64_error_unit)
  have "\<bar>binary64 ?z - (1 - ?y)\<bar> \<le> \<bar>binary64 ?z - ?z\<bar> + \<bar>binary64 ?y - ?y\<bar>"
    by linarith
  also have "\<dots> \<le> 1 / 2 ^ 54 + 1 / 2 ^ 54"
    using ey ez by (rule add_mono [rotated])
  also have "\<dots> = 1 / 2 ^ 53"
    by simp
  finally have "\<bar>(of_rat (binary64 ?z) :: real) - of_rat (1 - ?y)\<bar> \<le> of_rat (1 / 2 ^ 53)"
    by (rule of_rat_abs_diff_le)
  also have "(of_rat (1 / 2 ^ 53) :: real) = 1 / 2 ^ 53"
    by (simp add: of_rat_divide of_rat_power)
  finally have b: "\<bar>(of_rat (binary64 ?z) :: real) - of_rat (1 - ?y)\<bar> \<le> 1 / 2 ^ 53" .
  have r64: "red_of (calculateColor64 st) = of_rat (binary64 ?z)"
    using assms(2) False by (simp add: calculateColor64_high red_of_def)
  have r: "red_of (calculateColor st) = of_rat (1 - ?y)"
    using assms False by (simp add: red_of_calculateColor of_rat_divide of_rat_diff)
  show ?thesis
    unfolding r64 r by (rule b)
qed

lemma calculateColor64_51:
  "calculateColor64 \<lparr>percentage = 51, isCharging = c\<rparr> = (2206763817411543 / 2 ^ 51, 1, 0)"
proof -
  note binary64_one_fiftieth binary64_one_minus_one_fiftieth
  moreover have "(of_rat (2206763817411543 / 2 ^ 51) :: real) = 2206763817411543 / 2 ^ 51"
    by (simp add: of_rat_divide of_rat_power)
  moreover have "calculateColor64 \<lparr>percentage = 51, isCharging = c\<rparr>
      = (of_rat (binary64 (1 - binary64 (1 / 50))), 1, 0)"
    by (simp add: calculateColor64_high)
  ultimately show ?thesis
    by (simp only:)
qed

lemma calculateColor64_50:
  "calculateColor64 \<lparr>percentage = 50, isCharging = c\<rparr> = (1, 1, 0)"
  by (simp add: calculateColor64_low binary64_1)


text \<open>
  Claim C9, as amended. For adjacent integers \<open>p\<close> and \<open>p + 1\<close> in \<open>[0, 100]\<close>, each channel
  of the colour the code computes changes by at most \<open>1/50 + 1/2^52\<close> between the colour
  at \<open>p\<close> and the colour at \<open>p + 1\<close>. The bound \<open>1/50\<close> of the claim holds of the exact
  quotients and leaves no margin, and the binary64 values the code returns exceed it: the
  red channel is 1 at 50 and \<open>2206763817411543 / 2^51\<close> at 51, a step of more than
  \<open>1/50\<close>.
\<close>

theorem C9_color_adjacent_step_binary64:
  assumes "0 \<le> percentage st" and "percentage st' = percentage st + 1"
    and "percentage st' \<le> 100"
  shows "\<bar>red_of (calculateColor64 st') - red_of (calculateColor64 st)\<bar> \<le> 1 / 50 + 1 / 2 ^ 52
       \<and> \<bar>green_of (calculateColor64 st') - green_of (calculateColor64 st)\<bar>
            \<le> 1 / 50 + 1 / 2 ^ 52
       \<and> \<bar>blue_of (calculateColor64 st') - blue_of (calculateColor64 st)\<bar>
            \<le> 1 / 50 + 1 / 2 ^ 52"
proof -
  have r: "0 \<le> percentage st'" "percentage st \<le> 100"
    using assms by simp_all
  note exact = calculateColor_adjacent_step [OF assms]
  have "\<bar>red_of (calculateColor64 st') - red_of (calculateColor64 st)\<bar>
      \<le> \<bar>red_of (calculateColor64 st') - red_of (calculateColor st')\<bar>
        + \<bar>red_of (calculateColor st') - red_of (calculateColor st)\<bar>
        + \<bar>red_of (calculateColor64 st) - red_of (calculateColor st)\<bar>"
    by linarith
  also have "\<dots> \<le> 1 / 2 ^ 53 + 1 / 50 + 1 / 2 ^ 53"
    using red_of_calculateColor64_close [OF r(1) assms(3)]
      red_of_calculateColor64_close [OF assms(1) r(2)] exact
    by linarith
  finally have red: "\<bar>red_of (calculateColor64 st') - red_of (calculateColor64 st)\<bar>
      \<le> 1 / 50 + 1 / 2 ^ 52"
    by simp
  have "\<bar>green_of (calculateColor64 st') - green_of (calculateColor64 st)\<bar>
      \<le> \<bar>green_of (calculateColor64 st') - green_of (calculateColor st')\<bar>
        + \<bar>green_of (calculateColor st') - green_of (calculateColor st)\<bar>
        + \<bar>green_of (calculateColor64 st) - green_of (calculateColor st)\<bar>"
    by linarith
  also have "\<dots> \<le> 1 / 2 ^ 54 + 1 / 50 + 1 / 2 ^ 54"
    using green_of_calculateColor64_close [OF r(1) assms(3)]
      green_of_calculateColor64_close [OF assms(1) r(2)] exact
    by linarith
  finally have green: "\<bar>green_of (calculateColor64 st') - green_of (calculateColor64 st)\<bar>
      \<le> 1 / 50 + 1 / 2 ^ 52"
    by simp
  have "\<bar>blue_of (calculateColor64 st') - blue_of (calculateColor64 st)\<bar> \<le> 1 / 50 + 1 / 2 ^ 52"
    by (simp add: blue_of_calculateColor64)
  with red green show ?thesis
    by blast
qed

theorem C9_color_adjacent_step_binary64_witness:
  "(0::int) \<le> 50 \<and> (51::int) = 50 + 1 \<and> (51::int) \<le> 100
     \<and> \<bar>red_of (calculateColor64 \<lparr>percentage = 51, isCharging = False\<rparr>)
          - red_of (calculateColor64 \<lparr>percentage = 50, isCharging = False\<rparr>)\<bar>
         \<le> 1 / 50 + 1 / 2 ^ 52
     \<and> \<bar>green_of (calculateColor64 \<lparr>percentage = 51, isCharging = False\<rparr>)
          - green_of (calculateColor64 \<lparr>percentage = 50, isCharging = False\<rparr>)\<bar>
         \<le> 1 / 50 + 1 / 2 ^ 52"
proof -
  have "0 \<le> percentage \<lparr>percentage = 50, isCharging = False\<rparr>"
    and "percentage \<lparr>percentage = 51, isCharging = False\<rparr>
          = percentage \<lparr>percentage = 50, isCharging = False\<rparr> + 1"
    and "percentage \<lparr>percentage = 51, isCharging = False\<rparr> \<le> 100"
    by simp_all
  from C9_color_adjacent_step_binary64 [OF this] show ?thesis
    by simp
qed

theorem C9_color_adjacent_step_counterexample:
  "\<not> (\<bar>red_of (calculateColor64 \<lparr>percentage = 51, isCharging = False\<rparr>)
          - red_of (calculateColor64 \<lparr>percentage = 50, isCharging = False\<rparr>)\<bar> \<le> 1 / 50
      \<and> \<bar>green_of (calculateColor64 \<lparr>percentage = 51, isCharging = False\<rparr>)
          - green_of (calculateColor64 \<lparr>percentage = 50, isCharging = False\<rparr>)\<bar> \<le> 1 / 50
      \<and> \<bar>blue_of (calculateColor64 \<lparr>percentage = 51, isCharging = False\<rparr>)
          - blue_of (calculateColor64 \<lparr>percentage = 50, isCharging = False\<rparr>)\<bar> \<le> 1 / 50)"
  by (simp add: calculateColor64_51 calculateColor64_50 red_of_def)

text \<open>
  Claim C10. The colour is monotone on the valid domain: for integers
  \<open>0 \<le> p1 \<le> p2 \<le> 100\<close> the red channel at \<open>p1\<close> is at least the red channel at \<open>p2\<close>,
  the green channel at \<open>p1\<close> is at most the green channel at \<open>p2\<close>, and the blue channel
  is 0 for every percentage in \<open>[0, 100]\<close>.
\<close>

theorem C10_color_monotone:
  assumes "0 \<le> percentage st1" and "percentage st1 \<le> percentage st2"
    and "percentage st2 \<le> 100"
  shows "red_of (calculateColor st2) \<le> red_of (calculateColor st1)
       \<and> green_of (calculateColor st1) \<le> green_of (calculateColor st2)
       \<and> blue_of (calculateColor st1) = 0 \<and> blue_of (calculateColor st2) = 0"
proof -
  have r: "percentage st1 \<le> 100" "0 \<le> percentage st2"
    using assms by simp_all
  have "red_of (calculateColor st2) \<le> red_of (calculateColor st1)"
    using assms by (auto simp add: red_of_calculateColor r divide_right_mono)
  moreover have "green_of (calculateColor st1) \<le> green_of (calculateColor st2)"
    using assms by (auto simp add: green_of_calculateColor r divide_right_mono)
  ultimately show ?thesis
    by (simp add: blue_of_calculateColor)
qed

theorem C10_color_monotone_witness:
  "(0::int) \<le> 30 \<and> (30::int) \<le> 70 \<and> (70::int) \<le> 100
     \<and> red_of (calculateColor \<lparr>percentage = 70, isCharging = False\<rparr>)
          \<le> red_of (calculateColor \<lparr>percentage = 30, isCharging = False\<rparr>)
     \<and> green_of (calculateColor \<lparr>percentage = 30, isCharging = False\<rparr>)
          \<le> green_of (calculateColor \<lparr>percentage = 70, isCharging = False\<rparr>)
     \<and> blue_of (calculateColor \<lparr>percentage = 30, isCharging = False\<rparr>) = 0"
  using C10_color_monotone [of "\<lparr>percentage = 30, isCharging = False\<rparr>"
      "\<lparr>percentage = 70, isCharging = False\<rparr>"]
  by simp

section \<open>Properties of the visibility decision\<close>

lemma indicator_updateIndicator:
  "indicator (updateIndicator ext) =
     (let st = deviceStatus ext in
      if percentage st < 0 then map_option actor_hide (indicator ext)
      else if (if isCharging st
               then percentage st < getValidatedThreshold ext CHARGING_KEY
                  \<or> percentage st < getValidatedThreshold ext DISCHARGING_KEY
               else percentage st < getValidatedThreshold ext DISCHARGING_KEY)
      then map_option (actor_show \<circ> update st) (indicator ext)
      else map_option (actor_hide \<circ> update st) (indicator ext))"
  by (simp add: updateIndicator_def Let_def MIN_BATTERY_PERCENT_def getValidatedThreshold_def
      option.map_comp)

lemma indicatorShown_updateIndicator:
  "indicatorShown (updateIndicator ext) =
     (indicator ext \<noteq> None \<and> 0 \<le> percentage (deviceStatus ext) \<and>
      (if isCharging (deviceStatus ext)
       then percentage (deviceStatus ext) < getValidatedThreshold ext CHARGING_KEY
          \<or> percentage (deviceStatus ext) < getValidatedThreshold ext DISCHARGING_KEY
       else percentage (deviceStatus ext) < getValidatedThreshold ext DISCHARGING_KEY))"
  by (cases "indicator ext")
     (auto simp add: indicatorShown_def indicator_updateIndicator Let_def actor_show_def
       actor_hide_def)

lemma getValidatedThreshold_range:
  "0 \<le> getValidatedThreshold ext key \<and> getValidatedThreshold ext key \<le> 100"
  by (simp add: getValidatedThreshold_def MIN_BATTERY_PERCENT_def MAX_BATTERY_PERCENT_def)

lemma getValidatedThreshold_cases:
  "getValidatedThreshold ext key =
     (if settings ext key < 0 then 0 else if 100 < settings ext key then 100
      else settings ext key)"
  by (simp add: getValidatedThreshold_def MIN_BATTERY_PERCENT_def MAX_BATTERY_PERCENT_def)

lemma getValidatedThreshold_id:
  "0 \<le> settings ext key \<Longrightarrow> settings ext key \<le> 100 \<Longrightarrow>
     getValidatedThreshold ext key = settings ext key"
  by (simp add: getValidatedThreshold_cases)

lemma deviceStatus_settings: "deviceStatus (ext\<lparr>settings := s\<rparr>) = deviceStatus ext"
  by (simp add: deviceStatus_def)

lemma getValidatedThreshold_idem:
  "getValidatedThreshold (ext\<lparr>settings := getValidatedThreshold ext\<rparr>) key
     = getValidatedThreshold ext key"
  by (simp add: getValidatedThreshold_def MIN_BATTERY_PERCENT_def MAX_BATTERY_PERCENT_def)

lemma storedThresholds_keys:
  "storedThresholds c d CHARGING_KEY = c" "storedThresholds c d DISCHARGING_KEY = d"
  by (simp_all add: storedThresholds_def CHARGING_KEY_def DISCHARGING_KEY_def)

lemma deviceStatus_createIndicator:
  "deviceStatus (createIndicator s \<lparr>dev_percentage = Some (real_of_int n), dev_state = ds\<rparr> path)
     = \<lparr>percentage = n, isCharging = (ds = CHARGING)\<rparr>"
  by (simp add: deviceStatus_def createIndicator_def Math_round_def)

text \<open>
  Claim C1. For a status with percentage \<open>\<ge> 0\<close> and thresholds stored in \<open>[0, 100]\<close>: when
  charging, the indicator is shown if and only if the percentage is below the charging
  threshold or below the discharging threshold, that is, below the larger of the two;
  when not charging, it is shown if and only if the percentage is below the discharging
  threshold. (The extension has an indicator: \<^verbatim>\<open>enable()\<close> creates it.)
\<close>

theorem C1_visibility_thresholds:
  assumes "indicator ext \<noteq> None"
    and "0 \<le> percentage (deviceStatus ext)"
    and "0 \<le> settings ext CHARGING_KEY" and "settings ext CHARGING_KEY \<le> 100"
    and "0 \<le> settings ext DISCHARGING_KEY" and "settings ext DISCHARGING_KEY \<le> 100"
  shows "(isCharging (deviceStatus ext) \<longrightarrow>
            (indicatorShown (updateIndicator ext) \<longleftrightarrow>
               percentage (deviceStatus ext) < settings ext CHARGING_KEY
               \<or> percentage (deviceStatus ext) < settings ext DISCHARGING_KEY)
          \<and> (indicatorShown (updateIndicator ext) \<longleftrightarrow>
               percentage (deviceStatus ext)
                 < max (settings ext CHARGING_KEY) (settings ext DISCHARGING_KEY)))
       \<and> (\<not> isCharging (deviceStatus ext) \<longrightarrow>
            (indicatorShown (updateIndicator ext) \<longleftrightarrow>
               percentage (deviceStatus ext) < settings ext DISCHARGING_KEY))"
proof -
  have ct: "getValidatedThreshold ext CHARGING_KEY = settings ext CHARGING_KEY"
    using assms by (simp add: getValidatedThreshold_id)
  have dt: "getValidatedThreshold ext DISCHARGING_KEY = settings ext DISCHARGING_KEY"
    using assms by (simp add: getValidatedThreshold_id)
  show ?thesis
    using assms(1,2) by (auto simp add: indicatorShown_updateIndicator ct dt)
qed

theorem C1_visibility_thresholds_witness:
  "indicatorShown (updateIndicator
      (createIndicator (storedThresholds 80 90) \<lparr>dev_percentage = Some 85, dev_state = CHARGING\<rparr> ''/ext''))
   \<and> \<not> indicatorShown (updateIndicator
      (createIndicator (storedThresholds 80 90) \<lparr>dev_percentage = Some 95, dev_state = CHARGING\<rparr> ''/ext''))
   \<and> indicatorShown (updateIndicator
      (createIndicator (storedThresholds 80 90) \<lparr>dev_percentage = Some 85, dev_state = DISCHARGING\<rparr> ''/ext''))
   \<and> \<not> indicatorShown (updateIndicator
      (createIndicator (storedThresholds 90 80) \<lparr>dev_percentage = Some 85, dev_state = DISCHARGING\<rparr> ''/ext''))"
  using
    C1_visibility_thresholds [of "createIndicator (storedThresholds 80 90)
      \<lparr>dev_percentage = Some 85, dev_state = CHARGING\<rparr> ''/ext''"]
    C1_visibility_thresholds [of "createIndicator (storedThresholds 80 90)
      \<lparr>dev_percentage = Some 95, dev_state = CHARGING\<rparr> ''/ext''"]
    C1_visibility_thresholds [of "createIndicator (storedThresholds 80 90)
      \<lparr>dev_percentage = Some 85, dev_state = DISCHARGING\<rparr> ''/ext''"]
    C1_visibility_thresholds [of "createIndicator (storedThresholds 90 80)
      \<lparr>dev_percentage = Some 85, dev_state = DISCHARGING\<rparr> ''/ext''"]
    deviceStatus_createIndicator [of _ 85] deviceStatus_createIndicator [of _ 95]
  by (simp add: createIndicator_def storedThresholds_keys)

text \<open>
  Claim C2. For a status with percentage \<open>< 0\<close> the indicator is hidden, whatever the
  charging flag and the two thresholds are, and this rule takes precedence over the
  threshold comparisons: \<^verbatim>\<open>_updateIndicator\<close> returns after hiding the indicator, before
  the status is stored and the thresholds are read, although both comparisons, with
  thresholds clamped to \<open>[0, 100]\<close>, would hold for a negative percentage.
\<close>

theorem C2_unavailable_hidden:
  assumes "percentage (deviceStatus ext) < 0"
  shows "\<not> indicatorShown (updateIndicator ext)
       \<and> updateIndicator ext = ext\<lparr>indicator := map_option actor_hide (indicator ext)\<rparr>
       \<and> \<not> indicatorShown (updateIndicator (ext\<lparr>settings := s\<rparr>))
       \<and> percentage (deviceStatus ext) < getValidatedThreshold ext CHARGING_KEY
       \<and> percentage (deviceStatus ext) < getValidatedThreshold ext DISCHARGING_KEY"
proof -
  have "deviceStatus (ext\<lparr>settings := s\<rparr>) = deviceStatus ext"
    by (simp add: deviceStatus_def)
  then have "\<not> indicatorShown (updateIndicator (ext\<lparr>settings := s\<rparr>))"
    using assms by (simp add: indicatorShown_updateIndicator)
  moreover have "updateIndicator ext = ext\<lparr>indicator := map_option actor_hide (indicator ext)\<rparr>"
    using assms by (simp add: updateIndicator_def MIN_BATTERY_PERCENT_def)
  moreover have "percentage (deviceStatus ext) < getValidatedThreshold ext key" for key
    using assms getValidatedThreshold_range [of ext key] by simp
  moreover have "\<not> indicatorShown (updateIndicator ext)"
    using assms by (simp add: indicatorShown_updateIndicator)
  ultimately show ?thesis
    by blast
qed

theorem C2_unavailable_hidden_witness:
  "percentage (deviceStatus
      (createIndicator (storedThresholds 80 90) \<lparr>dev_percentage = None, dev_state = DISCHARGING\<rparr> ''/ext'')) = - 1
   \<and> \<not> indicatorShown (updateIndicator
      (createIndicator (storedThresholds 80 90) \<lparr>dev_percentage = None, dev_state = DISCHARGING\<rparr> ''/ext''))
   \<and> - 1 < getValidatedThreshold
      (createIndicator (storedThresholds 80 90) \<lparr>dev_percentage = None, dev_state = DISCHARGING\<rparr> ''/ext'')
      DISCHARGING_KEY"
proof -
  let ?ext = "createIndicator (storedThresholds 80 90)
      \<lparr>dev_percentage = None, dev_state = DISCHARGING\<rparr> ''/ext''"
  have p: "percentage (deviceStatus ?ext) = - 1"
    by (simp add: deviceStatus_def createIndicator_def Math_round_def)
  then have neg: "percentage (deviceStatus ?ext) < 0"
    by simp
  note t = C2_unavailable_hidden [OF neg, of "storedThresholds 0 0"]
  from t have "\<not> indicatorShown (updateIndicator ?ext)"
    by blast
  moreover from t have "- 1 < getValidatedThreshold ?ext DISCHARGING_KEY"
    unfolding p by blast
  ultimately show ?thesis
    using p by blast
qed

text \<open>
  Claim C6. For a status whose percentage lies outside \<open>[0, 100]\<close>, above 100 as well as
  negative, the indicator is not shown, for every stored threshold value and either
  charging state.
\<close>

theorem C6_out_of_range_hidden:
  assumes "percentage (deviceStatus ext) < 0 \<or> 100 < percentage (deviceStatus ext)"
  shows "\<not> indicatorShown (updateIndicator ext)"
  using assms getValidatedThreshold_range [of ext CHARGING_KEY]
    getValidatedThreshold_range [of ext DISCHARGING_KEY]
  by (auto simp add: indicatorShown_updateIndicator)

theorem C6_out_of_range_hidden_witness:
  "percentage (deviceStatus
      (createIndicator (storedThresholds 250 250) \<lparr>dev_percentage = Some 101, dev_state = CHARGING\<rparr> ''/ext'')) = 101
   \<and> \<not> indicatorShown (updateIndicator
      (createIndicator (storedThresholds 250 250) \<lparr>dev_percentage = Some 101, dev_state = CHARGING\<rparr> ''/ext''))
   \<and> \<not> indicatorShown (updateIndicator
      (createIndicator (storedThresholds 80 90) \<lparr>dev_percentage = Some (- 1), dev_state = DISCHARGING\<rparr> ''/ext''))"
  using
    C6_out_of_range_hidden [of "createIndicator (storedThresholds 250 250)
      \<lparr>dev_percentage = Some 101, dev_state = CHARGING\<rparr> ''/ext''"]
    C6_out_of_range_hidden [of "createIndicator (storedThresholds 80 90)
      \<lparr>dev_percentage = Some (- 1), dev_state = DISCHARGING\<rparr> ''/ext''"]
    deviceStatus_createIndicator [of _ 101] deviceStatus_createIndicator [of _ "- 1"]
  by simp

text \<open>
  Claim C7. For every integer stored under a threshold key, the value used in the
  visibility decision is clamped to \<open>[0, 100]\<close>: it is the stored value when that lies in
  \<open>[0, 100]\<close> and the nearer bound otherwise. The decision compares the percentage with
  the clamped values only, so it is the decision taken with the clamped values stored.
\<close>

theorem C7_thresholds_clamped:
  "getValidatedThreshold ext key =
     (if settings ext key < 0 then 0 else if 100 < settings ext key then 100
      else settings ext key)
   \<and> 0 \<le> getValidatedThreshold ext key \<and> getValidatedThreshold ext key \<le> 100
   \<and> (indicatorShown (updateIndicator ext) \<longleftrightarrow>
        indicator ext \<noteq> None \<and> 0 \<le> percentage (deviceStatus ext) \<and>
        (if isCharging (deviceStatus ext)
         then percentage (deviceStatus ext) < max 0 (min 100 (settings ext CHARGING_KEY))
            \<or> percentage (deviceStatus ext) < max 0 (min 100 (settings ext DISCHARGING_KEY))
         else percentage (deviceStatus ext) < max 0 (min 100 (settings ext DISCHARGING_KEY))))
   \<and> indicator (updateIndicator ext)
        = indicator (updateIndicator (ext\<lparr>settings := getValidatedThreshold ext\<rparr>))"
proof -
  have "indicator (updateIndicator ext)
        = indicator (updateIndicator (ext\<lparr>settings := getValidatedThreshold ext\<rparr>))"
    by (simp add: indicator_updateIndicator deviceStatus_settings getValidatedThreshold_idem
        Let_def)
  moreover have "max 0 (min 100 (settings ext k)) = getValidatedThreshold ext k" for k
    by (simp add: getValidatedThreshold_def MIN_BATTERY_PERCENT_def MAX_BATTERY_PERCENT_def)
  ultimately show ?thesis
    using getValidatedThreshold_range [of ext key]
    by (simp add: indicatorShown_updateIndicator getValidatedThreshold_cases [symmetric])
qed

theorem C7_thresholds_clamped_witness:
  "getValidatedThreshold
      (createIndicator (storedThresholds 250 (- 7)) \<lparr>dev_percentage = Some 50, dev_state = CHARGING\<rparr> ''/ext'')
      CHARGING_KEY = 100
   \<and> getValidatedThreshold
      (createIndicator (storedThresholds 250 (- 7)) \<lparr>dev_percentage = Some 50, dev_state = CHARGING\<rparr> ''/ext'')
      DISCHARGING_KEY = 0
   \<and> getValidatedThreshold
      (createIndicator (storedThresholds 80 90) \<lparr>dev_percentage = Some 50, dev_state = CHARGING\<rparr> ''/ext'')
      CHARGING_KEY = 80"
  using
    C7_thresholds_clamped [of "createIndicator (storedThresholds 250 (- 7))
      \<lparr>dev_percentage = Some 50, dev_state = CHARGING\<rparr> ''/ext''" CHARGING_KEY]
    C7_thresholds_clamped [of "createIndicator (storedThresholds 250 (- 7))
      \<lparr>dev_percentage = Some 50, dev_state = CHARGING\<rparr> ''/ext''" DISCHARGING_KEY]
    C7_thresholds_clamped [of "createIndicator (storedThresholds 80 90)
      \<lparr>dev_percentage = Some 50, dev_state = CHARGING\<rparr> ''/ext''" CHARGING_KEY]
  by (simp add: createIndicator_def storedThresholds_keys)

section \<open>Properties of the repaint handler\<close>

lemma arcEndAngle_eq: "arcEndAngle p = ARC_START_ANGLE + real_of_int p / 100 * degrees 360"
  by (simp add: arcEndAngle_def ARC_START_ANGLE_def degrees_def MAX_BATTERY_PERCENT_def
      DEGREES_PER_PERCENT_def field_simps)

lemma pathOps_append: "pathOps (xs @ ys) = pathOps xs @ pathOps ys"
  by (induction xs rule: pathOps.induct) simp_all

lemma pathOps_drawChargingIcon:
  "pathOps (fst (snd (drawChargingIcon h ind centerX centerY te red green blue))) = []"
  by (simp add: drawChargingIcon_def Let_def split: prod.splits option.splits)

lemma onRepaint_ring:
  "\<exists>rest. fst (onRepaint h ind) =
      [SetSourceRGBA 0 0 0 0, SetOperator CLEAR, Paint, SetOperator OVER,
       SetSourceRGB (fst (color ind)) (fst (snd (color ind))) (snd (snd (color ind))),
       Arc (fst (get_surface_size h) / 2) (snd (get_surface_size h) / 2)
         (min (fst (get_surface_size h)) (snd (get_surface_size h)) / 2 - RING_OUTER_PADDING)
         ARC_START_ANGLE (arcEndAngle (percentage (status ind))),
       ArcNegative (fst (get_surface_size h) / 2) (snd (get_surface_size h) / 2)
         ((min (fst (get_surface_size h)) (snd (get_surface_size h)) / 2 - RING_OUTER_PADDING)
            * RING_INNER_RATIO)
         (arcEndAngle (percentage (status ind))) ARC_START_ANGLE,
       ClosePath, Fill] @ rest
    \<and> pathOps rest = []"
  by (simp add: onRepaint_def Let_def split_def pathOps_append pathOps_drawChargingIcon)


lemma loadChargingSvg_failure:
  assumes "new_from_file h (extensionPath ind @ ''/charging.svg'') = LoadThrows
         \<or> new_from_file h (extensionPath ind @ ''/charging.svg'') = NullHandle"
  shows "\<exists>e. loadChargingSvg_try h ind red green blue = Inl e
           \<and> loadChargingSvg h ind red green blue
               = (None, [ConsoleError ''[BatteryIcon] Failed to load charging icon'' e])"
  using assms by (auto simp add: loadChargingSvg_def loadChargingSvg_try_def)

lemma drawChargingIcon_failure:
  assumes "loadChargingSvg h ind red green blue = (None, lg)"
  shows "drawChargingIcon h ind centerX centerY te red green blue
           = (centerX - te_width te / 2, [], lg)"
  using assms by (simp add: drawChargingIcon_def)

lemma onRepaint_not_charging:
  assumes "\<not> isCharging (status ind)"
  shows "snd (onRepaint h ind) = []"
    and "labelPositions (fst (onRepaint h ind)) =
      [(fst (get_surface_size h) / 2
          - te_width (textExtents h (Math_round (snd (get_surface_size h) * FONT_SIZE_RATIO))
              (String_of_int (percentage (status ind)))) / 2,
        snd (get_surface_size h) / 2
          + te_height (textExtents h (Math_round (snd (get_surface_size h) * FONT_SIZE_RATIO))
              (String_of_int (percentage (status ind)))) / 2)]"
  using assms by (simp_all add: onRepaint_def Let_def split_def)

text \<open>
  Claim C4. For a percentage \<open>p\<close> in \<open>[0, 100]\<close> the end angle of the filled arc is the
  fixed start angle (the top of the circle, \<open>-90\<close> degrees) plus \<open>p/100\<close> times 360
  degrees: the sweep is 0 at \<open>p = 0\<close>, 360 degrees at \<open>p = 100\<close>, and for \<open>p1 < p2\<close> in
  \<open>[0, 100]\<close> the sweep for \<open>p1\<close> is strictly less than the sweep for \<open>p2\<close>. The filled
  arc is the path of \<^verbatim>\<open>_onRepaint\<close>: after clearing the surface and setting the colour, the
  arc on the outer radius from the start angle to the end angle, the arc on the inner
  radius back from the end angle to the start angle, \<^verbatim>\<open>closePath\<close> and \<^verbatim>\<open>fill\<close>; no other
  path is built or filled in the repaint.
\<close>

theorem C4_arc_sweep:
  assumes "0 \<le> p" and "p \<le> 100" and "0 \<le> p1" and "p1 < p2" and "p2 \<le> 100"
  shows "ARC_START_ANGLE = degrees (- 90)
       \<and> arcEndAngle p = ARC_START_ANGLE + real_of_int p / 100 * degrees 360
       \<and> arcEndAngle 0 - ARC_START_ANGLE = 0
       \<and> arcEndAngle 100 - ARC_START_ANGLE = degrees 360
       \<and> arcEndAngle p1 - ARC_START_ANGLE < arcEndAngle p2 - ARC_START_ANGLE
       \<and> (\<exists>rest. fst (onRepaint h ind) =
            [SetSourceRGBA 0 0 0 0, SetOperator CLEAR, Paint, SetOperator OVER,
             SetSourceRGB (fst (color ind)) (fst (snd (color ind))) (snd (snd (color ind))),
             Arc (fst (get_surface_size h) / 2) (snd (get_surface_size h) / 2)
               (min (fst (get_surface_size h)) (snd (get_surface_size h)) / 2
                  - RING_OUTER_PADDING)
               ARC_START_ANGLE (arcEndAngle (percentage (status ind))),
             ArcNegative (fst (get_surface_size h) / 2) (snd (get_surface_size h) / 2)
               ((min (fst (get_surface_size h)) (snd (get_surface_size h)) / 2
                  - RING_OUTER_PADDING) * RING_INNER_RATIO)
               (arcEndAngle (percentage (status ind))) ARC_START_ANGLE,
             ClosePath, Fill] @ rest
          \<and> pathOps rest = [])"
proof -
  have "ARC_START_ANGLE = degrees (- 90)"
    by (simp add: ARC_START_ANGLE_def degrees_def)
  moreover have "arcEndAngle 0 - ARC_START_ANGLE = 0"
    by (simp add: arcEndAngle_eq)
  moreover have "arcEndAngle 100 - ARC_START_ANGLE = degrees 360"
    by (simp add: arcEndAngle_eq)
  moreover have "arcEndAngle p1 - ARC_START_ANGLE < arcEndAngle p2 - ARC_START_ANGLE"
  proof -
    have "0 < degrees 360"
      by (simp add: degrees_def)
    moreover have "real_of_int p1 / 100 < real_of_int p2 / 100"
      using assms(4) by simp
    ultimately have "real_of_int p1 / 100 * degrees 360 < real_of_int p2 / 100 * degrees 360"
      by (rule mult_strict_right_mono [rotated])
    then show ?thesis
      by (simp add: arcEndAngle_eq)
  qed
  ultimately show ?thesis
    using arcEndAngle_eq [of p] onRepaint_ring [of h ind] by blast
qed

theorem C4_arc_sweep_witness:
  "arcEndAngle 25 = ARC_START_ANGLE + 25 / 100 * degrees 360
   \<and> arcEndAngle 25 - ARC_START_ANGLE < arcEndAngle 75 - ARC_START_ANGLE
   \<and> pathOps (fst (onRepaint
        \<lparr>new_from_file = (\<lambda>path. LoadThrows), get_surface_size = (24, 24),
         textExtents = (\<lambda>size label. \<lparr>te_width = 12, te_height = 8\<rparr>)\<rparr>
        (init \<lparr>percentage = 25, isCharging = False\<rparr> ''/ext'')))
      = [Arc 12 12 10 (- pi / 2) 0, ArcNegative 12 12 9 0 (- pi / 2), ClosePath, Fill]"
proof -
  let ?h = "\<lparr>new_from_file = (\<lambda>path. LoadThrows), get_surface_size = (24, 24),
         textExtents = (\<lambda>size label. \<lparr>te_width = 12, te_height = 8\<rparr>)\<rparr>"
  let ?ind = "init \<lparr>percentage = 25, isCharging = False\<rparr> ''/ext''"
  have "(0::int) \<le> 25" and "(25::int) \<le> 100" and "(0::int) \<le> 25" and "(25::int) < 75"
    and "(75::int) \<le> 100"
    by simp_all
  note t = C4_arc_sweep [OF this, of ?h ?ind]
  from t have a: "arcEndAngle 25 = ARC_START_ANGLE + real_of_int 25 / 100 * degrees 360"
    and b: "arcEndAngle 25 - ARC_START_ANGLE < arcEndAngle 75 - ARC_START_ANGLE"
    by blast+
  from t obtain rest where ops: "fst (onRepaint ?h ?ind) =
            [SetSourceRGBA 0 0 0 0, SetOperator CLEAR, Paint, SetOperator OVER,
             SetSourceRGB (fst (color ?ind)) (fst (snd (color ?ind))) (snd (snd (color ?ind))),
             Arc (fst (get_surface_size ?h) / 2) (snd (get_surface_size ?h) / 2)
               (min (fst (get_surface_size ?h)) (snd (get_surface_size ?h)) / 2
                  - RING_OUTER_PADDING)
               ARC_START_ANGLE (arcEndAngle (percentage (status ?ind))),
             ArcNegative (fst (get_surface_size ?h) / 2) (snd (get_surface_size ?h) / 2)
               ((min (fst (get_surface_size ?h)) (snd (get_surface_size ?h)) / 2
                  - RING_OUTER_PADDING) * RING_INNER_RATIO)
               (arcEndAngle (percentage (status ?ind))) ARC_START_ANGLE,
             ClosePath, Fill] @ rest"
      and rest: "pathOps rest = []"
    by blast
  have e: "arcEndAngle 25 = 0"
    using a by (simp add: ARC_START_ANGLE_def degrees_def)
  have "pathOps (fst (onRepaint ?h ?ind))
      = [Arc 12 12 10 (- pi / 2) 0, ArcNegative 12 12 9 0 (- pi / 2), ClosePath, Fill]"
    unfolding ops
    by (simp add: pathOps_append rest init_def e RING_OUTER_PADDING_def RING_INNER_RATIO_def
        ARC_START_ANGLE_def)
  with a b show ?thesis
    by simp
qed


text \<open>
  Claim C8. When the charging glyph fails to load, a repaint with \<open>isCharging\<close> true
  raises no error (the error of the \<^verbatim>\<open>try\<close> block ends in the console entry), writes
  exactly one console entry, and places the label where it is placed when \<open>isCharging\<close> is
  false: at \<open>centerX\<close> minus half the width of the text. The Cairo calls are those of the
  repaint without the charging flag.
\<close>

theorem C8_glyph_load_failure:
  assumes "isCharging (status ind)"
    and "new_from_file h (extensionPath ind @ ''/charging.svg'') = LoadThrows
       \<or> new_from_file h (extensionPath ind @ ''/charging.svg'') = NullHandle"
  shows "(\<exists>e. loadChargingSvg_try h ind (fst (color ind)) (fst (snd (color ind)))
                 (snd (snd (color ind))) = Inl e
              \<and> snd (onRepaint h ind)
                  = [ConsoleError ''[BatteryIcon] Failed to load charging icon'' e])
       \<and> length (snd (onRepaint h ind)) = 1
       \<and> fst (onRepaint h ind)
           = fst (onRepaint h (ind\<lparr>status := (status ind)\<lparr>isCharging := False\<rparr>\<rparr>))
       \<and> labelPositions (fst (onRepaint h ind)) =
           [(fst (get_surface_size h) / 2
               - te_width (textExtents h (Math_round (snd (get_surface_size h) * FONT_SIZE_RATIO))
                   (String_of_int (percentage (status ind)))) / 2,
             snd (get_surface_size h) / 2
               + te_height (textExtents h (Math_round (snd (get_surface_size h) * FONT_SIZE_RATIO))
                   (String_of_int (percentage (status ind)))) / 2)]"
proof -
  obtain e where e: "loadChargingSvg_try h ind (fst (color ind)) (fst (snd (color ind)))
        (snd (snd (color ind))) = Inl e"
      and l: "loadChargingSvg h ind (fst (color ind)) (fst (snd (color ind)))
        (snd (snd (color ind)))
        = (None, [ConsoleError ''[BatteryIcon] Failed to load charging icon'' e])"
    using loadChargingSvg_failure [OF assms(2)] by blast
  note d = drawChargingIcon_failure [OF l]
  have lg: "snd (onRepaint h ind)
      = [ConsoleError ''[BatteryIcon] Failed to load charging icon'' e]"
    using assms(1) by (simp add: onRepaint_def Let_def split_def d)
  have ops: "fst (onRepaint h ind)
      = fst (onRepaint h (ind\<lparr>status := (status ind)\<lparr>isCharging := False\<rparr>\<rparr>))"
    using assms(1) by (simp add: onRepaint_def Let_def split_def d)
  have pos: "labelPositions (fst (onRepaint h ind)) =
           [(fst (get_surface_size h) / 2
               - te_width (textExtents h (Math_round (snd (get_surface_size h) * FONT_SIZE_RATIO))
                   (String_of_int (percentage (status ind)))) / 2,
             snd (get_surface_size h) / 2
               + te_height (textExtents h (Math_round (snd (get_surface_size h) * FONT_SIZE_RATIO))
                   (String_of_int (percentage (status ind)))) / 2)]"
    unfolding ops by (simp add: onRepaint_not_charging)
  from e lg ops pos show ?thesis
    by simp
qed

theorem C8_glyph_load_failure_witness:
  "snd (onRepaint
      \<lparr>new_from_file = (\<lambda>path. LoadThrows), get_surface_size = (24, 24),
       textExtents = (\<lambda>size label. \<lparr>te_width = 12, te_height = 8\<rparr>)\<rparr>
      (init \<lparr>percentage = 85, isCharging = True\<rparr> ''/ext''))
     = [ConsoleError ''[BatteryIcon] Failed to load charging icon'' GLibError]
   \<and> labelPositions (fst (onRepaint
      \<lparr>new_from_file = (\<lambda>path. LoadThrows), get_surface_size = (24, 24),
       textExtents = (\<lambda>size label. \<lparr>te_width = 12, te_height = 8\<rparr>)\<rparr>
      (init \<lparr>percentage = 85, isCharging = True\<rparr> ''/ext''))) = [(6, 16)]"
proof -
  let ?h = "\<lparr>new_from_file = (\<lambda>path. LoadThrows), get_surface_size = (24, 24),
       textExtents = (\<lambda>size label. \<lparr>te_width = 12, te_height = 8\<rparr>)\<rparr>"
  let ?ind = "init \<lparr>percentage = 85, isCharging = True\<rparr> ''/ext''"
  have a: "isCharging (status ?ind)"
    by (simp add: init_def)
  have b: "new_from_file ?h (extensionPath ?ind @ ''/charging.svg'') = LoadThrows
         \<or> new_from_file ?h (extensionPath ?ind @ ''/charging.svg'') = NullHandle"
    by simp
  note t = C8_glyph_load_failure [OF a b]
  from t obtain e where "loadChargingSvg_try ?h ?ind (fst (color ?ind)) (fst (snd (color ?ind)))
        (snd (snd (color ?ind))) = Inl e"
      and lg: "snd (onRepaint ?h ?ind)
        = [ConsoleError ''[BatteryIcon] Failed to load charging icon'' e]"
    by blast
  then have "e = GLibError"
    by (simp add: loadChargingSvg_try_def)
  with lg have "snd (onRepaint ?h ?ind)
        = [ConsoleError ''[BatteryIcon] Failed to load charging icon'' GLibError]"
    by simp
  moreover from t have "labelPositions (fst (onRepaint ?h ?ind)) =
           [(fst (get_surface_size ?h) / 2
               - te_width (textExtents ?h (Math_round (snd (get_surface_size ?h) * FONT_SIZE_RATIO))
                   (String_of_int (percentage (status ?ind)))) / 2,
             snd (get_surface_size ?h) / 2
               + te_height (textExtents ?h (Math_round (snd (get_surface_size ?h) * FONT_SIZE_RATIO))
                   (String_of_int (percentage (status ?ind)))) / 2)]"
    by blast
  then have "labelPositions (fst (onRepaint ?h ?ind)) = [(6, 16)]"
    by simp
  ultimately show ?thesis
    by blast
qed

end
